theory Spec2Isabelle
  imports Main "HOL-Library.Char_ord" "HOL-Library.List_Lexorder" "HOL-Library.Word"
begin

section \<open>Data model\<close>

text \<open>
  The two helper functions of \<^verbatim>\<open>prophet_forecast.py\<close> and the one-hot encoding call at
  its line 48 operate on a pandas DataFrame. A frame is modelled as the ordered list of its
  columns, each a label with the values of the column, one per row. Column labels are
  strings over HOL's 8-bit characters. A column holds either strings (a categorical column such as
  \<^verbatim>\<open>product_name\<close>) or 64-bit signed integers (dtype \<^verbatim>\<open>int64\<close>), a machine
  word \<open>w\<close> standing for the integer \<open>sint w\<close>; an indicator value, which pandas stores
  as a boolean or a 0/1 integer, is the number 0 or 1. Unsigned and floating-point columns
  and missing values are not modelled. The number of rows of a frame is the length of its
  columns; a frame without columns has no rows.

  The frames the script handles have unique column labels and columns of one common
  length; \<open>wf_table\<close> states this, and the operations below are the pandas operations
  on such frames.
\<close>

datatype column = StrCol "string list" | NumCol "64 word list"

type_synonym table = "(string \<times> column) list"

fun col_len :: "column \<Rightarrow> nat" where
  "col_len (StrCol vs) = length vs"
| "col_len (NumCol ns) = length ns"

fun is_num :: "column \<Rightarrow> bool" where
  "is_num (StrCol vs) = False"
| "is_num (NumCol ns) = True"

fun is_str :: "column \<Rightarrow> bool" where
  "is_str (StrCol vs) = True"
| "is_str (NumCol ns) = False"

fun nums :: "column \<Rightarrow> int list" where
  "nums (StrCol vs) = []"
| "nums (NumCol ns) = map sint ns"

fun strs :: "column \<Rightarrow> string list" where
  "strs (StrCol vs) = vs"
| "strs (NumCol ns) = []"

definition columns :: "table \<Rightarrow> string list" where
  "columns df = map fst df"

fun nrows :: "table \<Rightarrow> nat" where
  "nrows [] = 0"
| "nrows ((n, c) # df) = col_len c"

definition wf_table :: "table \<Rightarrow> bool" where
  "wf_table df = (distinct (columns df) \<and> list_all (\<lambda>(n, c). col_len c = nrows df) df)"

text \<open>
  The exceptions the modelled code can raise. \<open>KeyError\<close>, \<open>ValueError\<close> and
  \<open>TypeError\<close> are raised inside pandas. \<open>SchemaError\<close> is the dedicated error of
  the specification's error taxonomy; no statement of the source raises it.
\<close>

datatype pyerror = KeyError | ValueError | TypeError | SchemaError

section \<open>String operations\<close>

text \<open>\<^verbatim>\<open>col.startswith(prefix)\<close>.\<close>

fun startswith :: "string \<Rightarrow> string \<Rightarrow> bool" where
  "startswith s [] = True"
| "startswith [] (p # ps) = False"
| "startswith (c # cs) (p # ps) = (c = p \<and> startswith cs ps)"

text \<open>
  \<^verbatim>\<open>s.rstrip('_')\<close> removes every trailing underscore, \<^verbatim>\<open>s.strip('_')\<close> every
  leading and every trailing one.
\<close>

definition is_us :: "char \<Rightarrow> bool" where
  "is_us c = (c = CHR ''_'')"

definition rstrip_us :: "string \<Rightarrow> string" where
  "rstrip_us s = rev (dropWhile is_us (rev s))"

definition strip_us :: "string \<Rightarrow> string" where
  "strip_us s = dropWhile is_us (rstrip_us s)"

text \<open>
  \<^verbatim>\<open>s.replace(p, '')\<close>, the elementwise operation of \<^verbatim>\<open>.str.replace(prefix, '')\<close>
  at line 24: scanning from the left, every non-overlapping occurrence of \<open>p\<close> is removed.
  The pattern is taken literally (the default \<^verbatim>\<open>regex=False\<close> of pandas 2; for a
  pattern without regular-expression metacharacters, such as the two prefixes passed at
  lines 94 and 97, the older default gives the same result). With the empty pattern
  nothing is removed.
\<close>

function str_remove :: "string \<Rightarrow> string \<Rightarrow> string" where
  "str_remove p [] = []"
| "str_remove p (c # cs) =
     (if p \<noteq> [] \<and> startswith (c # cs) p then str_remove p (drop (length p) (c # cs))
      else c # str_remove p cs)"
  by pat_completeness auto
termination
  by (relation "measure (\<lambda>(p, s). length s)") (auto simp: Suc_le_eq)

text \<open>
  The character class \<^verbatim>\<open>[a-zA-Z0-9_]\<close> of the regular expression at line 15.
\<close>

definition is_word :: "char \<Rightarrow> bool" where
  "is_word c = (let n = (of_char c :: nat) in
     (97 \<le> n \<and> n \<le> 122) \<or> (65 \<le> n \<and> n \<le> 90) \<or> (48 \<le> n \<and> n \<le> 57) \<or> n = 95)"

text \<open>
  Line 15, on one name: \<^verbatim>\<open>re.sub(r'[^a-zA-Z0-9_]', '_', s)\<close> replaces every character
  outside the class by an underscore.
\<close>

definition replace_nonword :: "string \<Rightarrow> string" where
  "replace_nonword s = map (\<lambda>c. if is_word c then c else CHR ''_'') s"

text \<open>
  Line 16, on one name: \<^verbatim>\<open>re.sub(r'__+', '_', s)\<close> replaces every maximal run of
  two or more underscores by one underscore. A single underscore is no match and is kept.
\<close>

function collapse_us :: "string \<Rightarrow> string" where
  "collapse_us [] = []"
| "collapse_us (c # cs) =
     (if is_us c then c # collapse_us (dropWhile is_us cs) else c # collapse_us cs)"
  by pat_completeness auto
termination
  by (relation "measure length") (auto simp: length_dropWhile_le less_Suc_eq_le)

section \<open>sanitize_column_names\<close>

text \<open>
  \<^verbatim>\<open>df.columns = df.columns.str.<op>(...)\<close> applies a string operation to every
  column label and leaves the values alone.
\<close>

definition map_columns :: "(string \<Rightarrow> string) \<Rightarrow> table \<Rightarrow> table" where
  "map_columns f df = map (\<lambda>(n, c). (f n, c)) df"

definition sanitize_column_names :: "table \<Rightarrow> table" where
  "sanitize_column_names df =
     (let df1 = map_columns replace_nonword df;
          df2 = map_columns collapse_us df1;
          df3 = map_columns strip_us df2
      in df3)"

section \<open>undummy\<close>

text \<open>
  \<^verbatim>\<open>df[names]\<close>: the frame of the columns with the given labels, in the order of
  \<open>names\<close>. A label that is no column of \<open>df\<close> raises \<open>KeyError\<close>.
\<close>

fun getitem_cols :: "table \<Rightarrow> string list \<Rightarrow> pyerror + table" where
  "getitem_cols df [] = Inr []"
| "getitem_cols df (n # ns) =
     (case map_of df n of
        None \<Rightarrow> Inl KeyError
      | Some c \<Rightarrow> (case getitem_cols df ns of
                    Inl e \<Rightarrow> Inl e
                  | Inr cs \<Rightarrow> Inr ((n, c) # cs)))"

text \<open>
  \<^verbatim>\<open>numpy.argmax\<close> on one row: the position of the first occurrence of the largest
  value. It is called on non-empty rows only. Integers are compared as integers, strings
  as Python compares them, character by character.
\<close>

fun argmax :: "'a::linorder list \<Rightarrow> nat" where
  "argmax [] = 0"
| "argmax [x] = 0"
| "argmax (x # y # ys) =
     (let j = argmax (y # ys) in if (y # ys) ! j \<le> x then 0 else Suc j)"

definition row_at :: "table \<Rightarrow> nat \<Rightarrow> int list" where
  "row_at sel i = map (\<lambda>(n, c). nums c ! i) sel"

definition row_str_at :: "table \<Rightarrow> nat \<Rightarrow> string list" where
  "row_str_at sel i = map (\<lambda>(n, c). strs c ! i) sel"

text \<open>
  \<^verbatim>\<open>sel.idxmax(axis=1)\<close> of pandas 2, on a selection \<open>sel\<close> of the columns of a frame
  with \<open>n\<close> rows (the selection keeps the row index of the frame, which a selection
  without columns does not show): for every row the label of the column holding the
  row's maximum. On a frame without rows the result is empty, whatever the selection.
  Otherwise, over an empty selection the reduction raises \<open>ValueError\<close>
  (\<^verbatim>\<open>attempt to get argmax of an empty sequence\<close>); integer columns are compared as
  integers and string columns as strings; in a selection that holds both, a string meets
  a number in the comparison, which raises \<open>TypeError\<close>.
\<close>

definition idxmax_axis1 :: "nat \<Rightarrow> table \<Rightarrow> pyerror + string list" where
  "idxmax_axis1 n sel =
     (if n = 0 then Inr []
      else if sel = [] then Inl ValueError
      else if list_all (\<lambda>(k, c). is_num c) sel
        then Inr (map (\<lambda>i. fst (sel ! argmax (row_at sel i))) [0..<n])
      else if list_all (\<lambda>(k, c). is_str c) sel
        then Inr (map (\<lambda>i. fst (sel ! argmax (row_str_at sel i))) [0..<n])
      else Inl TypeError)"

text \<open>
  \<^verbatim>\<open>df[k] = v\<close>: an existing column \<open>k\<close> is overwritten where it stands, a new
  label is appended after the last column.
\<close>

fun setitem :: "table \<Rightarrow> string \<Rightarrow> column \<Rightarrow> table" where
  "setitem [] k v = [(k, v)]"
| "setitem ((n, c) # df) k v = (if n = k then (k, v) # df else (n, c) # setitem df k v)"

text \<open>
  \<^verbatim>\<open>df.drop(columns=names)\<close>: the frame without the columns labelled in \<open>names\<close>;
  a label that is no column of \<open>df\<close> raises \<open>KeyError\<close>.
\<close>

definition drop_columns :: "table \<Rightarrow> string list \<Rightarrow> pyerror + table" where
  "drop_columns df names =
     (if set names \<subseteq> set (columns df) then Inr (filter (\<lambda>(n, c). n \<notin> set names) df)
      else Inl KeyError)"

text \<open>
  \<^verbatim>\<open>undummy(df, prefix)\<close>, lines 22 to 26. The function receives a reference to a
  frame, assigns a column to that frame (line 24), drops columns from it in place
  (line 25) and returns the reference (line 26). The store maps references to frames. An
  exception raised while the right-hand side of line 24 is evaluated leaves the store as
  it was.
\<close>

type_synonym ref = nat

type_synonym heap = "ref \<Rightarrow> table"

definition undummy :: "heap \<Rightarrow> ref \<Rightarrow> string \<Rightarrow> (pyerror + ref) \<times> heap" where
  "undummy h df prefix =
     (let dummy_cols = [col \<leftarrow> columns (h df). startswith col prefix] in
      case getitem_cols (h df) dummy_cols of
        Inl e \<Rightarrow> (Inl e, h)
      | Inr sel \<Rightarrow>
          (case idxmax_axis1 (nrows (h df)) sel of
             Inl e \<Rightarrow> (Inl e, h)
           | Inr labels \<Rightarrow>
               (let h1 = h(df := setitem (h df) (rstrip_us prefix)
                                   (StrCol (map (str_remove prefix) labels))) in
                case drop_columns (h1 df) dummy_cols of
                  Inl e \<Rightarrow> (Inl e, h1)
                | Inr t \<Rightarrow> (Inr df, h1(df := t)))))"

text \<open>
  What a caller observes of a call: the exception, or the frame the returned reference
  designates in the store the call leaves behind.
\<close>

fun outcome :: "(pyerror + ref) \<times> heap \<Rightarrow> pyerror + table" where
  "outcome (Inl e, h) = Inl e"
| "outcome (Inr r, h) = Inr (h r)"

text \<open>
  The decode operation as a function on frame values: the outcome of \<open>undummy\<close> called
  with a reference to a frame that holds \<open>t\<close>.
\<close>

definition decode :: "table \<Rightarrow> string \<Rightarrow> pyerror + table" where
  "decode t prefix = outcome (undummy (\<lambda>r. t) 0 prefix)"

section \<open>get_dummies\<close>

text \<open>\<^verbatim>\<open>str(n)\<close> for an integer: its decimal digits, with a minus sign when negative.\<close>

fun show_nat :: "nat \<Rightarrow> string" where
  "show_nat n =
     (if n < 10 then [char_of (48 + n)]
      else show_nat (n div 10) @ [char_of (48 + n mod 10)])"

definition show_int :: "int \<Rightarrow> string" where
  "show_int i = (if i < 0 then CHR ''-'' # show_nat (nat (- i)) else show_nat (nat i))"

text \<open>
  Modelled from the spec: \<^verbatim>\<open>pd.get_dummies\<close>, the encode operation called at line 48,
  is a function of pandas and not part of the sources. Section 4.1 of the specification:
  for each distinct value \<open>v\<close> observed in the column, an indicator column named column
  + \<^verbatim>\<open>"_"\<close> + \<open>v\<close> is created, 1 in the rows where the original value equals \<open>v\<close>
  and 0 elsewhere, and the original column is removed. The call at line 48 passes no
  sanitizer, prefix or separator, so the level itself (\<^verbatim>\<open>str(v)\<close>) is appended after
  the default separator. The indicator columns come in the sorted order of the levels and
  are placed after the columns that are not encoded, one block per encoded column; a
  requested column that is absent raises \<open>KeyError\<close>.
\<close>

definition dummies_of :: "('a::linorder \<Rightarrow> string) \<Rightarrow> string \<Rightarrow> 'a list \<Rightarrow> table" where
  "dummies_of str c vs =
     map (\<lambda>l. (c @ ''_'' @ str l, NumCol (map (\<lambda>v. if v = l then 1 else 0) vs)))
       (sort (remdups vs))"

text \<open>
  Modelled from the spec: the indicator columns of one encoded column, a string column
  or an integer column, whose levels are written as \<^verbatim>\<open>str\<close> writes them.
\<close>

fun get_dummies_1d :: "string \<Rightarrow> column \<Rightarrow> table" where
  "get_dummies_1d c (StrCol vs) = dummies_of (\<lambda>v. v) c vs"
| "get_dummies_1d c (NumCol ns) = dummies_of show_int c (map sint ns)"

text \<open>
  Modelled from the spec: \<^verbatim>\<open>pd.get_dummies(data, columns=cols)\<close>. The requested
  columns are selected (\<open>KeyError\<close> when one is absent), removed from the frame, and
  their indicator columns are appended.
\<close>

definition get_dummies :: "table \<Rightarrow> string list \<Rightarrow> pyerror + table" where
  "get_dummies data cols =
     (case getitem_cols data cols of
        Inl e \<Rightarrow> Inl e
      | Inr data_to_encode \<Rightarrow>
          Inr (filter (\<lambda>(n, c). n \<notin> set cols) data
               @ concat (map (\<lambda>(n, c). get_dummies_1d n c) data_to_encode)))"

section \<open>Notions used in the statements\<close>

text \<open>The columns of a frame whose label starts with the prefix, in column order.\<close>

definition matched :: "table \<Rightarrow> string \<Rightarrow> table" where
  "matched t p = filter (\<lambda>(n, c). startswith n p) t"


text \<open>
  The value of the column \<open>c\<close> in row \<open>i\<close> is at most, or is less than, the value
  of the column \<open>d\<close> in that row. Only two integer columns or two string columns
  compare.
\<close>

definition le_at :: "nat \<Rightarrow> column \<Rightarrow> column \<Rightarrow> bool" where
  "le_at i c d =
     ((is_num c \<and> is_num d \<and> nums c ! i \<le> nums d ! i)
      \<or> (is_str c \<and> is_str d \<and> strs c ! i \<le> strs d ! i))"

definition lt_at :: "nat \<Rightarrow> column \<Rightarrow> column \<Rightarrow> bool" where
  "lt_at i c d =
     ((is_num c \<and> is_num d \<and> nums c ! i < nums d ! i)
      \<or> (is_str c \<and> is_str d \<and> strs c ! i < strs d ! i))"

text \<open>The number of distinct values of a column.\<close>

fun levels_count :: "column \<Rightarrow> nat" where
  "levels_count (StrCol vs) = card (set vs)"
| "levels_count (NumCol ns) = card (set ns)"

text \<open>The three steps of \<open>sanitize_column_names\<close> on one column label.\<close>

definition sanitize_name :: "string \<Rightarrow> string" where
  "sanitize_name s = strip_us (collapse_us (replace_nonword s))"

text \<open>No two underscores stand side by side.\<close>

fun no_run :: "string \<Rightarrow> bool" where
  "no_run [] = True"
| "no_run [c] = True"
| "no_run (c # d # cs) = (\<not> (is_us c \<and> is_us d) \<and> no_run (d # cs))"

section \<open>Sanitizing column names\<close>

lemma sanitize_column_names_eq: "sanitize_column_names df = map_columns sanitize_name df"
  by (simp add: sanitize_column_names_def map_columns_def sanitize_name_def split_def)

lemma is_word_us: "is_us c \<Longrightarrow> is_word c"
  by (simp add: is_us_def is_word_def)

lemma replace_nonword_word: "list_all is_word (replace_nonword s)"
  by (induction s) (auto simp: replace_nonword_def is_word_us is_us_def)

lemma replace_nonword_id: "list_all is_word s \<Longrightarrow> replace_nonword s = s"
  by (induction s) (auto simp: replace_nonword_def)

lemma collapse_us_set: "set (collapse_us s) \<subseteq> set s"
proof (induction s rule: collapse_us.induct)
  case 1 show ?case by simp
next
  case (2 c cs)
  show ?case
  proof (cases "is_us c")
    case True
    with 2 have "set (collapse_us (dropWhile is_us cs)) \<subseteq> set cs"
      using set_dropWhileD by fastforce
    with True show ?thesis by auto
  next
    case False with 2 show ?thesis by auto
  qed
qed

lemma collapse_us_Nil: "collapse_us s = [] \<longleftrightarrow> s = []"
  by (cases s) auto

lemma collapse_us_hd: "s \<noteq> [] \<Longrightarrow> hd (collapse_us s) = hd s"
  by (cases s) auto

lemma no_run_Cons: "no_run (c # s) \<longleftrightarrow> (s = [] \<or> \<not> (is_us c \<and> is_us (hd s))) \<and> no_run s"
  by (cases s) auto

lemma collapse_us_no_run: "no_run (collapse_us s)"
proof (induction s rule: collapse_us.induct)
  case 1 show ?case by simp
next
  case (2 c cs)
  show ?case
  proof (cases "is_us c")
    case True
    define d where "d = dropWhile is_us cs"
    have "d = [] \<or> \<not> is_us (hd d)"
      unfolding d_def using hd_dropWhile by blast
    then have "collapse_us d = [] \<or> \<not> is_us (hd (collapse_us d))"
      using collapse_us_hd [of d] by (cases "d = []") auto
    with True 2 show ?thesis
      by (simp add: no_run_Cons d_def)
  next
    case False with 2 show ?thesis by (simp add: no_run_Cons)
  qed
qed

lemma collapse_us_id: "no_run s \<Longrightarrow> collapse_us s = s"
proof (induction s rule: collapse_us.induct)
  case 1 show ?case by simp
next
  case (2 c cs)
  from "2.prems" have nr: "no_run cs" and h: "cs = [] \<or> \<not> (is_us c \<and> is_us (hd cs))"
    by (simp_all add: no_run_Cons)
  show ?case
  proof (cases "is_us c")
    case True
    with h have "dropWhile is_us cs = cs" by (cases cs) auto
    with True 2 nr show ?thesis by simp
  next
    case False with 2 nr show ?thesis by simp
  qed
qed

lemma no_run_append: "no_run (xs @ ys) \<Longrightarrow> no_run xs \<and> no_run ys"
proof (induction xs rule: no_run.induct)
  case 1 then show ?case by simp
next
  case (2 c) then show ?case by (simp add: no_run_Cons)
next
  case (3 c d cs) then show ?case by simp
qed

lemma rstrip_us_split: "s = rstrip_us s @ rev (takeWhile is_us (rev s))"
proof -
  have "rstrip_us s @ rev (takeWhile is_us (rev s))
      = rev (takeWhile is_us (rev s) @ dropWhile is_us (rev s))"
    unfolding rstrip_us_def rev_append ..
  then show ?thesis by simp
qed

lemma strip_us_split: "\<exists>a b. s = a @ strip_us s @ b"
proof -
  have "rstrip_us s = takeWhile is_us (rstrip_us s) @ strip_us s"
    by (simp add: strip_us_def)
  with rstrip_us_split [of s] show ?thesis by (metis append.assoc)
qed

lemma strip_us_no_run: "no_run s \<Longrightarrow> no_run (strip_us s)"
  using strip_us_split [of s] no_run_append by metis

lemma strip_us_word: "list_all is_word s \<Longrightarrow> list_all is_word (strip_us s)"
  using strip_us_split [of s] by (metis list_all_append)

lemma rstrip_us_last: "rstrip_us s \<noteq> [] \<Longrightarrow> \<not> is_us (last (rstrip_us s))"
  unfolding rstrip_us_def using hd_dropWhile [of is_us "rev s"] by (simp add: last_rev)

lemma rstrip_us_id: "s = [] \<or> \<not> is_us (last s) \<Longrightarrow> rstrip_us s = s"
  by (cases s rule: rev_cases) (auto simp: rstrip_us_def)

lemma strip_us_id: "s = [] \<or> (\<not> is_us (hd s) \<and> \<not> is_us (last s)) \<Longrightarrow> strip_us s = s"
  by (cases s) (auto simp: strip_us_def rstrip_us_id)

lemma strip_us_ends: "strip_us s = [] \<or> (\<not> is_us (hd (strip_us s)) \<and> \<not> is_us (last (strip_us s)))"
proof (cases "strip_us s = []")
  case True then show ?thesis by simp
next
  case False
  then have ne: "dropWhile is_us (rstrip_us s) \<noteq> []" by (simp add: strip_us_def)
  then have h: "\<not> is_us (hd (strip_us s))" unfolding strip_us_def using hd_dropWhile by blast
  from ne have r: "rstrip_us s \<noteq> []" by auto
  have "rstrip_us s = takeWhile is_us (rstrip_us s) @ strip_us s" by (simp add: strip_us_def)
  with False have "last (rstrip_us s) = last (strip_us s)" by (metis last_appendR)
  with rstrip_us_last [OF r] h show ?thesis by simp
qed

lemma strip_us_idem: "strip_us (strip_us s) = strip_us s"
  using strip_us_ends [of s] by (rule strip_us_id)

lemma sanitize_name_idem: "sanitize_name (sanitize_name s) = sanitize_name s"
proof -
  let ?t = "sanitize_name s"
  have w: "list_all is_word ?t"
    unfolding sanitize_name_def
    using replace_nonword_word [of s] collapse_us_set [of "replace_nonword s"]
    by (intro strip_us_word) (auto simp: list_all_iff)
  have n: "no_run ?t"
    unfolding sanitize_name_def by (intro strip_us_no_run collapse_us_no_run)
  have "sanitize_name ?t = strip_us (collapse_us ?t)"
    using w by (simp add: sanitize_name_def [of ?t] replace_nonword_id)
  also have "\<dots> = strip_us ?t" using n by (simp add: collapse_us_id)
  also have "\<dots> = ?t" unfolding sanitize_name_def by (rule strip_us_idem)
  finally show ?thesis .
qed

text \<open>
  C9. Sanitizing is idempotent: applying \<open>sanitize_column_names\<close> to its own result
  changes nothing, because after one application every label consists of letters, digits
  and underscores only, has no two adjacent underscores and neither starts nor ends with
  an underscore.
\<close>

theorem sanitize_column_names_idempotent:
  "sanitize_column_names (sanitize_column_names df) = sanitize_column_names df"
  by (simp add: sanitize_column_names_eq map_columns_def split_def sanitize_name_idem)

section \<open>Closed form of undummy\<close>

lemma startswith_iff: "startswith s p \<longleftrightarrow> (\<exists>r. s = p @ r)"
  by (induction s p rule: startswith.induct) auto

lemma startswith_append [simp]: "startswith (p @ r) p"
  by (simp add: startswith_iff)


lemma getitem_cols_subset:
  "distinct (map fst df) \<Longrightarrow> set xs \<subseteq> set df \<Longrightarrow> getitem_cols df (map fst xs) = Inr xs"
  by (induction xs) auto

lemma getitem_cols_matched:
  assumes "distinct (columns df)"
  shows "getitem_cols df [col \<leftarrow> columns df. startswith col p] = Inr (matched df p)"
proof -
  have "[col \<leftarrow> columns df. startswith col p] = map fst (matched df p)"
    by (simp add: columns_def matched_def filter_map comp_def split_def)
  moreover have "set (matched df p) \<subseteq> set df" by (auto simp: matched_def)
  ultimately show ?thesis
    using assms getitem_cols_subset [of df "matched df p"] by (simp add: columns_def)
qed

lemma columns_setitem: "set (columns (setitem df k v)) = insert k (set (columns df))"
  by (induction df k v rule: setitem.induct) (auto simp: columns_def)


lemma drop_after_setitem:
  "drop_columns (setitem df k v) [col \<leftarrow> columns df. P col]
     = Inr (filter (\<lambda>(n, c). n \<notin> set [col \<leftarrow> columns df. P col]) (setitem df k v))"
  by (auto simp: drop_columns_def columns_setitem)

lemma undummy_empty:
  assumes "distinct (columns (h r))" and "0 < nrows (h r)" and "matched (h r) p = []"
  shows "undummy h r p = (Inl ValueError, h)"
  using assms by (simp add: undummy_def getitem_cols_matched idxmax_axis1_def)

lemma undummy_mixed:
  assumes "distinct (columns (h r))" and "0 < nrows (h r)" and "matched (h r) p \<noteq> []"
    and "\<not> list_all (\<lambda>(n, c). is_num c) (matched (h r) p)"
    and "\<not> list_all (\<lambda>(n, c). is_str c) (matched (h r) p)"
  shows "undummy h r p = (Inl TypeError, h)"
  using assms by (simp add: undummy_def getitem_cols_matched idxmax_axis1_def)

lemma columns_matched: "n \<in> set (columns (matched t p)) \<longleftrightarrow> n \<in> set (columns t) \<and> startswith n p"
  by (auto simp: columns_def matched_def)

lemma undummy_ok:
  assumes "distinct (columns (h r))"
    and "idxmax_axis1 (nrows (h r)) (matched (h r) p) = Inr labels"
  shows "undummy h r p =
    (Inr r, h(r := filter (\<lambda>(n, c). n \<notin> set (columns (matched (h r) p)))
                    (setitem (h r) (rstrip_us p) (StrCol (map (str_remove p) labels)))))"
proof -
  have e: "[col \<leftarrow> columns (h r). startswith col p] = columns (matched (h r) p)"
    by (simp add: columns_def matched_def filter_map comp_def split_def)
  show ?thesis
    using assms
    by (simp add: undummy_def getitem_cols_matched drop_after_setitem Let_def columns_matched)
qed

lemma argmax_lt: "xs \<noteq> [] \<Longrightarrow> argmax xs < length xs"
  by (induction xs rule: argmax.induct) (auto simp: Let_def)

lemma argmax_max: "k < length xs \<Longrightarrow> xs ! k \<le> xs ! argmax xs"
proof (induction xs arbitrary: k rule: argmax.induct)
  case 1 then show ?case by simp
next
  case (2 x) then show ?case by simp
next
  case (3 x y ys)
  show ?case
  proof (cases k)
    case 0 then show ?thesis by (auto simp: Let_def)
  next
    case (Suc k')
    with 3 have "(y # ys) ! k' \<le> (y # ys) ! argmax (y # ys)" by simp
    with Suc show ?thesis by (auto simp: Let_def)
  qed
qed

lemma argmax_first: "k < argmax xs \<Longrightarrow> xs ! k < xs ! argmax xs"
proof (induction xs arbitrary: k rule: argmax.induct)
  case 1 then show ?case by simp
next
  case (2 x) then show ?case by simp
next
  case (3 x y ys)
  show ?case
  proof (cases "(y # ys) ! argmax (y # ys) \<le> x")
    case True with "3.prems" show ?thesis by (simp add: Let_def)
  next
    case False
    show ?thesis
    proof (cases k)
      case 0 with False show ?thesis by (simp add: Let_def)
    next
      case (Suc k')
      with "3.prems" False have "k' < argmax (y # ys)" by (simp add: Let_def)
      with 3 have "(y # ys) ! k' < (y # ys) ! argmax (y # ys)" by simp
      with Suc False show ?thesis by (simp add: Let_def)
    qed
  qed
qed

lemma idxmax_ok:
  assumes "matched t p \<noteq> []" and "list_all (\<lambda>(n, c). is_num c) (matched t p)"
  shows "idxmax_axis1 (nrows t) (matched t p)
    = Inr (map (\<lambda>i. fst (matched t p ! argmax (row_at (matched t p) i))) [0..<nrows t])"
  using assms by (simp add: idxmax_axis1_def)

lemma all_str_not_num:
  assumes "sel \<noteq> []" and "list_all (\<lambda>(n, c). is_str c) sel"
  shows "\<not> list_all (\<lambda>(n, c). is_num c) sel"
proof -
  from assms(1) obtain n c sel' where e: "sel = (n, c) # sel'" by (cases sel) auto
  with assms(2) have "is_str c" by simp
  then have "\<not> is_num c" by (cases c) simp_all
  with e show ?thesis by simp
qed

lemma idxmax_ok_str:
  assumes "matched t p \<noteq> []" and "list_all (\<lambda>(n, c). is_str c) (matched t p)"
  shows "idxmax_axis1 (nrows t) (matched t p)
    = Inr (map (\<lambda>i. fst (matched t p ! argmax (row_str_at (matched t p) i))) [0..<nrows t])"
  using assms all_str_not_num [OF assms] by (simp add: idxmax_axis1_def)


lemma row_at_nth: "k < length sel \<Longrightarrow> row_at sel i ! k = nums (snd (sel ! k)) ! i"
  by (simp add: row_at_def split_def)

lemma row_str_at_nth: "k < length sel \<Longrightarrow> row_str_at sel i ! k = strs (snd (sel ! k)) ! i"
  by (simp add: row_str_at_def split_def)

text \<open>Unfolding the definitions on concrete frames.\<close>

lemmas eval_defs = decode_def undummy_def columns_def idxmax_axis1_def row_at_def row_str_at_def
  drop_columns_def
  rstrip_us_def is_us_def matched_def wf_table_def

section \<open>Decoding\<close>

text \<open>
  C2, as stated, fails. No column of the frame below starts with the prefix; the call ends
  with the \<open>ValueError\<close> of the reduction over an empty selection, not with the
  dedicated \<open>SchemaError\<close>.
\<close>

theorem undummy_no_match_counterexample:
  "decode [(''ds'', NumCol [1])] ''product_name_'' = Inl ValueError
   \<and> decode [(''ds'', NumCol [1])] ''product_name_'' \<noteq> Inl SchemaError"
  by (simp add: eval_defs)

text \<open>
  C2 (amended). For every frame with unique labels and at least one row, and every prefix
  that no column label starts with, \<open>undummy\<close> raises \<open>ValueError\<close>, the error of
  \<^verbatim>\<open>idxmax\<close> over an empty selection, produces no frame and leaves the frame it was
  given as it was.
\<close>

theorem undummy_no_match:
  assumes "wf_table (h r)" and "0 < nrows (h r)" and "matched (h r) p = []"
  shows "undummy h r p = (Inl ValueError, h) \<and> decode (h r) p = Inl ValueError"
proof -
  have d: "distinct (columns (h r))" using assms(1) by (simp add: wf_table_def)
  have "undummy h r p = (Inl ValueError, h)" using d assms(2,3) by (rule undummy_empty)
  moreover have "undummy (\<lambda>x. h r) 0 p = (Inl ValueError, \<lambda>x. h r)"
    using d assms(2,3) by (intro undummy_empty) simp_all
  ultimately show ?thesis by (simp add: decode_def)
qed

text \<open>
  The hypotheses hold for a frame with the single column \<^verbatim>\<open>ds\<close> and the prefix
  \<^verbatim>\<open>product_name_\<close>.
\<close>

theorem undummy_no_match_witness:
  "wf_table [(''ds'', NumCol [1, 2])] \<and> 0 < nrows [(''ds'', NumCol [1, 2])]
   \<and> matched [(''ds'', NumCol [1, 2])] ''product_name_'' = []
   \<and> undummy (\<lambda>r. [(''ds'', NumCol [1, 2])]) 0 ''product_name_''
        = (Inl ValueError, \<lambda>r. [(''ds'', NumCol [1, 2])])
   \<and> decode [(''ds'', NumCol [1, 2])] ''product_name_'' = Inl ValueError"
proof -
  let ?t = "[(''ds'', NumCol [1, 2])]"
  have 1: "wf_table ((\<lambda>r::ref. ?t) 0)" by (simp add: wf_table_def columns_def)
  have 2: "0 < nrows ((\<lambda>r::ref. ?t) 0)" by simp
  have 3: "matched ((\<lambda>r::ref. ?t) 0) ''product_name_'' = []" by (simp add: matched_def)
  from undummy_no_match [OF 1 2 3] 1 2 3 show ?thesis by simp
qed

text \<open>
  C4, as stated, fails. Both columns of the frame below start with the prefix; one holds a
  string and the other a number, the comparison of the two raises \<open>TypeError\<close>, and
  decode selects no column.
\<close>

theorem decode_first_argmax_counterexample:
  "decode [(''cat_note'', StrCol [''x'']), (''cat_A'', NumCol [1])] ''cat_'' = Inl TypeError"
  by (simp add: eval_defs)

text \<open>
  C4 (amended). Decode takes the first maximum. Let the frame have unique labels and
  columns of one length and at least one column whose label starts with the prefix, and
  let those columns be all integer columns or all string columns. Then decode succeeds,
  and for every row \<open>i\<close> the label \<open>labels ! i\<close> it selects is the label of a matched
  column \<open>j\<close> whose value in row \<open>i\<close> is at least the value of every matched column
  and strictly greater than the value of every matched column before \<open>j\<close> in column
  order.
\<close>

theorem decode_first_argmax:
  assumes "wf_table t" and "matched t p \<noteq> []"
    and "list_all (\<lambda>(n, c). is_num c) (matched t p)
         \<or> list_all (\<lambda>(n, c). is_str c) (matched t p)"
    and "i < nrows t"
  shows "\<exists>labels j.
      decode t p = Inr (filter (\<lambda>(n, c). n \<notin> set (columns (matched t p)))
                         (setitem t (rstrip_us p) (StrCol (map (str_remove p) labels))))
    \<and> length labels = nrows t
    \<and> j < length (matched t p)
    \<and> labels ! i = fst (matched t p ! j)
    \<and> (\<forall>k < length (matched t p). le_at i (snd (matched t p ! k)) (snd (matched t p ! j)))
    \<and> (\<forall>k < j. lt_at i (snd (matched t p ! k)) (snd (matched t p ! j)))"
proof -
  let ?sel = "matched t p"
  have d: "distinct (columns t)" using assms(1) by (simp add: wf_table_def)
  have dec: "decode t p = Inr (filter (\<lambda>(n, c). n \<notin> set (columns ?sel))
                         (setitem t (rstrip_us p) (StrCol (map (str_remove p) labels))))"
    if "idxmax_axis1 (nrows t) ?sel = Inr labels" for labels
    unfolding decode_def using undummy_ok [of "\<lambda>r. t" 0 p labels] d that by simp
  from assms(3) show ?thesis
  proof
    assume num: "list_all (\<lambda>(n, c). is_num c) ?sel"
    let ?labels = "map (\<lambda>i. fst (?sel ! argmax (row_at ?sel i))) [0..<nrows t]"
    let ?row = "row_at ?sel i"
    let ?j = "argmax ?row"
    have len: "length ?row = length ?sel" by (simp add: row_at_def)
    with assms(2) have ne: "?row \<noteq> []" by auto
    have isn: "is_num (snd (?sel ! k))" if "k < length ?sel" for k
      using num that by (auto simp: list_all_length split_def)
    have 1: "decode t p = Inr (filter (\<lambda>(n, c). n \<notin> set (columns ?sel))
                         (setitem t (rstrip_us p) (StrCol (map (str_remove p) ?labels))))"
      using idxmax_ok [OF assms(2) num] by (rule dec)
    have 2: "length ?labels = nrows t" by simp
    have 3: "?j < length ?sel" using argmax_lt [OF ne] len by simp
    have 4: "?labels ! i = fst (?sel ! ?j)" using assms(4) by simp
    have 5: "\<forall>k < length ?sel. le_at i (snd (?sel ! k)) (snd (?sel ! ?j))"
    proof (intro allI impI)
      fix k assume k: "k < length ?sel"
      then have "?row ! k \<le> ?row ! ?j" using argmax_max [of k ?row] len by simp
      then show "le_at i (snd (?sel ! k)) (snd (?sel ! ?j))"
        using k 3 isn by (simp add: row_at_nth le_at_def)
    qed
    have 6: "\<forall>k < ?j. lt_at i (snd (?sel ! k)) (snd (?sel ! ?j))"
    proof (intro allI impI)
      fix k assume k: "k < ?j"
      then have "?row ! k < ?row ! ?j" by (rule argmax_first)
      then show "lt_at i (snd (?sel ! k)) (snd (?sel ! ?j))"
        using k 3 isn by (simp add: row_at_nth lt_at_def)
    qed
    from 1 2 3 4 5 6 show ?thesis by blast
  next
    assume str: "list_all (\<lambda>(n, c). is_str c) ?sel"
    let ?labels = "map (\<lambda>i. fst (?sel ! argmax (row_str_at ?sel i))) [0..<nrows t]"
    let ?row = "row_str_at ?sel i"
    let ?j = "argmax ?row"
    have len: "length ?row = length ?sel" by (simp add: row_str_at_def)
    with assms(2) have ne: "?row \<noteq> []" by auto
    have iss: "is_str (snd (?sel ! k))" if "k < length ?sel" for k
      using str that by (auto simp: list_all_length split_def)
    have 1: "decode t p = Inr (filter (\<lambda>(n, c). n \<notin> set (columns ?sel))
                         (setitem t (rstrip_us p) (StrCol (map (str_remove p) ?labels))))"
      using idxmax_ok_str [OF assms(2) str] by (rule dec)
    have 2: "length ?labels = nrows t" by simp
    have 3: "?j < length ?sel" using argmax_lt [OF ne] len by simp
    have 4: "?labels ! i = fst (?sel ! ?j)" using assms(4) by simp
    have 5: "\<forall>k < length ?sel. le_at i (snd (?sel ! k)) (snd (?sel ! ?j))"
    proof (intro allI impI)
      fix k assume k: "k < length ?sel"
      then have "?row ! k \<le> ?row ! ?j" using argmax_max [of k ?row] len by simp
      then show "le_at i (snd (?sel ! k)) (snd (?sel ! ?j))"
        using k 3 iss by (simp add: row_str_at_nth le_at_def)
    qed
    have 6: "\<forall>k < ?j. lt_at i (snd (?sel ! k)) (snd (?sel ! ?j))"
    proof (intro allI impI)
      fix k assume k: "k < ?j"
      then have "?row ! k < ?row ! ?j" by (rule argmax_first)
      then show "lt_at i (snd (?sel ! k)) (snd (?sel ! ?j))"
        using k 3 iss by (simp add: row_str_at_nth lt_at_def)
    qed
    from 1 2 3 4 5 6 show ?thesis by blast
  qed
qed

text \<open>
  In row 1 of the frame below both indicator columns hold 1; the hypotheses hold and the
  statement applies to that row.
\<close>

theorem decode_first_argmax_witness:
  "wf_table [(''yhat'', NumCol [5, 7]), (''cat_A'', NumCol [0, 1]), (''cat_B'', NumCol [1, 1])]
   \<and> matched [(''yhat'', NumCol [5, 7]), (''cat_A'', NumCol [0, 1]), (''cat_B'', NumCol [1, 1])] ''cat_''
        = [(''cat_A'', NumCol [0, 1]), (''cat_B'', NumCol [1, 1])]
   \<and> (\<exists>labels j.
        decode [(''yhat'', NumCol [5, 7]), (''cat_A'', NumCol [0, 1]), (''cat_B'', NumCol [1, 1])] ''cat_''
          = Inr (filter (\<lambda>(n, c). n \<notin> set [''cat_A'', ''cat_B''])
                  (setitem [(''yhat'', NumCol [5, 7]), (''cat_A'', NumCol [0, 1]), (''cat_B'', NumCol [1, 1])]
                     ''cat'' (StrCol (map (str_remove ''cat_'') labels))))
        \<and> length labels = 2 \<and> j < 2
        \<and> labels ! 1 = fst ([(''cat_A'', NumCol [0, 1]), (''cat_B'', NumCol [1, 1])] ! j)
        \<and> (\<forall>k < j. lt_at 1 (snd ([(''cat_A'', NumCol [0, 1]), (''cat_B'', NumCol [1, 1])] ! k))
                            (snd ([(''cat_A'', NumCol [0, 1]), (''cat_B'', NumCol [1, 1])] ! j))))"
proof -
  let ?t = "[(''yhat'', NumCol [5, 7]), (''cat_A'', NumCol [0, 1]), (''cat_B'', NumCol [1, 1])]"
  have m: "matched ?t ''cat_'' = [(''cat_A'', NumCol [0, 1]), (''cat_B'', NumCol [1, 1])]"
    by (simp add: matched_def)
  have 1: "wf_table ?t" by (simp add: wf_table_def columns_def)
  have 2: "matched ?t ''cat_'' \<noteq> []" by (simp add: m)
  have 3: "list_all (\<lambda>(n, c). is_num c) (matched ?t ''cat_'')
         \<or> list_all (\<lambda>(n, c). is_str c) (matched ?t ''cat_'')" by (simp add: m)
  have 4: "1 < nrows ?t" by simp
  have r: "rstrip_us ''cat_'' = ''cat''" by (simp add: rstrip_us_def is_us_def)
  from decode_first_argmax [OF 1 2 3 4] obtain labels j where
    "decode ?t ''cat_'' = Inr (filter (\<lambda>(n, c). n \<notin> set (columns (matched ?t ''cat_'')))
        (setitem ?t (rstrip_us ''cat_'') (StrCol (map (str_remove ''cat_'') labels))))"
    "length labels = nrows ?t" "j < length (matched ?t ''cat_'')"
    "labels ! 1 = fst (matched ?t ''cat_'' ! j)"
    "\<forall>k < j. lt_at 1 (snd (matched ?t ''cat_'' ! k)) (snd (matched ?t ''cat_'' ! j))"
    by blast
  then have "decode ?t ''cat_'' = Inr (filter (\<lambda>(n, c). n \<notin> set [''cat_A'', ''cat_B''])
        (setitem ?t ''cat'' (StrCol (map (str_remove ''cat_'') labels))))
      \<and> length labels = 2 \<and> j < 2
      \<and> labels ! 1 = fst ([(''cat_A'', NumCol [0, 1]), (''cat_B'', NumCol [1, 1])] ! j)
      \<and> (\<forall>k < j. lt_at 1 (snd ([(''cat_A'', NumCol [0, 1]), (''cat_B'', NumCol [1, 1])] ! k))
                          (snd ([(''cat_A'', NumCol [0, 1]), (''cat_B'', NumCol [1, 1])] ! j)))"
    unfolding m r by (simp add: columns_def)
  with 1 m show ?thesis by blast
qed

text \<open>
  C7. Determinism. What a call of \<open>undummy\<close> yields, the exception or the resulting
  frame, is determined by the frame it is given and the prefix: two calls on references
  that hold equal frames, in whatever stores, have the same outcome.
\<close>

theorem undummy_deterministic:
  "h1 r1 = h2 r2 \<Longrightarrow> outcome (undummy h1 r1 p) = outcome (undummy h2 r2 p)"
  by (simp add: undummy_def Let_def split: sum.splits)

text \<open>
  Two stores that hold the same frame under different references.
\<close>

theorem undummy_deterministic_witness:
  "(\<lambda>r. [(''cat_A'', NumCol [1])]) (0::ref)
     = (\<lambda>r. if r = 3 then [(''cat_A'', NumCol [1])] else []) (3::ref)
   \<and> outcome (undummy (\<lambda>r. [(''cat_A'', NumCol [1])]) 0 ''cat_'')
     = outcome (undummy (\<lambda>r. if r = 3 then [(''cat_A'', NumCol [1])] else []) 3 ''cat_'')"
proof -
  have 1: "(\<lambda>r. [(''cat_A'', NumCol [1])]) (0::ref)
     = (\<lambda>r. if r = 3 then [(''cat_A'', NumCol [1])] else []) (3::ref)" by simp
  from undummy_deterministic [of "\<lambda>r. [(''cat_A'', NumCol [1])]" 0
      "\<lambda>r. if r = 3 then [(''cat_A'', NumCol [1])] else []" 3 "''cat_''"] 1
  show ?thesis by blast
qed

text \<open>
  C8. The reconstructed value is not the column label with the prefix stripped: line 24
  removes every occurrence of the prefix. For the indicator column of the level
  \<^verbatim>\<open>a_cat_b\<close> of the column \<^verbatim>\<open>cat\<close>, the decoded value is \<^verbatim>\<open>a_b\<close>.
\<close>

theorem undummy_removes_every_occurrence:
  "decode [(''cat_a_cat_b'', NumCol [1])] ''cat_'' = Inr [(''cat'', StrCol [''a_b''])]"
  by (simp add: eval_defs)




section \<open>Encoding\<close>

lemma get_dummies_single:
  "map_of t c = Some col \<Longrightarrow>
   get_dummies t [c] = Inr (filter (\<lambda>(n, x). n \<noteq> c) t @ get_dummies_1d c col)"
  by (simp add: get_dummies_def)

lemma wf_col_len:
  assumes "wf_table t" and "map_of t c = Some col"
  shows "col_len col = nrows t"
proof -
  from assms(2) have "(c, col) \<in> set t" by (rule map_of_SomeD)
  with assms(1) show ?thesis by (auto simp: wf_table_def list_all_iff)
qed

lemma card_sint: "card (sint ` set (ns :: 64 word list)) = card (set ns)"
  by (rule card_image) (rule inj_on_subset [OF inj_signed subset_UNIV])

lemma length_dummies_of: "length (dummies_of str c vs) = card (set vs)"
  by (simp add: dummies_of_def length_remdups_card_conv)

lemma dummies_of_startswith:
  "k < length (dummies_of str c vs) \<Longrightarrow> startswith (fst (dummies_of str c vs ! k)) (c @ ''_'')"
  by (simp add: dummies_of_def startswith_iff)

lemma dummies_of_cell:
  "k < length (dummies_of str c vs) \<Longrightarrow> i < length vs \<Longrightarrow>
   nums (snd (dummies_of str c vs ! k)) ! i = (if vs ! i = sort (remdups vs) ! k then 1 else 0)"
  by (simp add: dummies_of_def)

lemma dummies_of_bool:
  "(n, d) \<in> set (dummies_of str c vs) \<Longrightarrow>
   \<exists>bs. d = NumCol bs \<and> length bs = length vs \<and> set bs \<subseteq> {0, 1}"
  by (auto simp: dummies_of_def)

lemma dummies_of_exclusive:
  assumes "i < length vs"
  shows "\<exists>j < length (dummies_of str c vs).
     nums (snd (dummies_of str c vs ! j)) ! i = 1
   \<and> (\<forall>k < length (dummies_of str c vs). k \<noteq> j \<longrightarrow> nums (snd (dummies_of str c vs ! k)) ! i = 0)"
proof -
  let ?ls = "sort (remdups vs)"
  have l: "length (dummies_of str c vs) = length ?ls" by (simp add: dummies_of_def)
  have dist: "distinct ?ls" by simp
  from assms have "vs ! i \<in> set ?ls" by simp
  then obtain j where j: "j < length ?ls" "?ls ! j = vs ! i"
    unfolding in_set_conv_nth by blast
  have "\<forall>k < length ?ls. k \<noteq> j \<longrightarrow> ?ls ! k \<noteq> vs ! i"
    using dist j nth_eq_iff_index_eq by metis
  with j assms l show ?thesis
    by (intro exI [of _ j]) (auto simp: dummies_of_cell)
qed

lemma matched_append: "matched (a @ b) p = matched a p @ matched b p"
  by (simp add: matched_def)

lemma matched_none: "\<forall>n \<in> set (columns t). \<not> startswith n p \<Longrightarrow> matched t p = []"
  by (auto simp: matched_def columns_def filter_empty_conv)

lemma matched_all: "\<forall>k < length t. startswith (fst (t ! k)) p \<Longrightarrow> matched t p = t"
  unfolding matched_def by (rule filter_True) (force simp: in_set_conv_nth)

lemma columns_filter_subset: "set (columns (filter P t)) \<subseteq> set (columns t)"
  by (auto simp: columns_def)

lemma length_drop_one:
  "distinct (map fst t) \<Longrightarrow> map_of t c = Some col \<Longrightarrow>
   length (filter (\<lambda>(n, x). n \<noteq> c) t) + 1 = length t"
proof (induction t)
  case Nil then show ?case by simp
next
  case (Cons a t)
  obtain n x where a: "a = (n, x)" by (cases a)
  show ?case
  proof (cases "n = c")
    case True
    with Cons.prems a have "c \<notin> fst ` set t" by simp
    then have "filter (\<lambda>(n, x). n \<noteq> c) t = t" by (intro filter_True) force
    with True a show ?thesis by simp
  next
    case False
    with Cons a show ?thesis by simp
  qed
qed





text \<open>
  C5, as stated, fails. The frame below has, beside the categorical column
  \<^verbatim>\<open>cat\<close>, a column \<^verbatim>\<open>cat_X\<close> that holds 1 in every row. Encoding keeps it, so in
  row 0 of the encoded frame two of the columns that share the prefix \<^verbatim>\<open>cat_\<close> hold 1.
\<close>

theorem get_dummies_exclusive_counterexample:
  "get_dummies [(''cat_X'', NumCol [1, 1]), (''cat'', StrCol [''A'', ''B''])] [''cat'']
     = Inr [(''cat_X'', NumCol [1, 1]), (''cat_A'', NumCol [1, 0]), (''cat_B'', NumCol [0, 1])]
   \<and> matched [(''cat_X'', NumCol [1, 1]), (''cat_A'', NumCol [1, 0]), (''cat_B'', NumCol [0, 1])]
         ''cat_''
     = [(''cat_X'', NumCol [1, 1]), (''cat_A'', NumCol [1, 0]), (''cat_B'', NumCol [0, 1])]
   \<and> row_at [(''cat_X'', NumCol [1, 1]), (''cat_A'', NumCol [1, 0]), (''cat_B'', NumCol [0, 1])] 0
     = [1, 1, 0]"
  by (simp add: get_dummies_def dummies_of_def matched_def row_at_def)

text \<open>
  C5 (amended). Exclusivity. Let the frame have unique labels and columns of one length,
  let \<open>c\<close> be a column of it, and let no label of the frame start with the prefix
  \<open>c\<close> + \<^verbatim>\<open>"_"\<close>. Then encoding \<open>c\<close> succeeds, the encoded frame consists of the
  other columns followed by the columns that share the prefix, and in every row exactly
  one of the columns that share the prefix holds 1 and all the others hold 0.
\<close>

theorem get_dummies_exclusive:
  assumes "wf_table t" and "map_of t c = Some col" and "i < nrows t"
    and "\<forall>n \<in> set (columns t). \<not> startswith n (c @ ''_'')"
  shows "\<exists>enc. get_dummies t [c] = Inr enc
     \<and> enc = filter (\<lambda>(n, x). n \<noteq> c) t @ matched enc (c @ ''_'')
     \<and> (\<exists>j < length (matched enc (c @ ''_'')).
            nums (snd (matched enc (c @ ''_'') ! j)) ! i = 1
          \<and> (\<forall>k < length (matched enc (c @ ''_'')).
                 k \<noteq> j \<longrightarrow> nums (snd (matched enc (c @ ''_'') ! k)) ! i = 0))"
proof -
  let ?D = "get_dummies_1d c col"
  let ?rest = "filter (\<lambda>(n, x). n \<noteq> c) t"
  let ?p = "c @ ''_''"
  have i: "i < col_len col" using assms(1-3) wf_col_len by simp
  have 1: "get_dummies t [c] = Inr (?rest @ ?D)" using assms(2) by (rule get_dummies_single)
  have 2: "\<forall>k < length ?D. startswith (fst (?D ! k)) ?p"
    by (cases col) (simp_all add: dummies_of_startswith)
  have 3: "\<exists>j < length ?D. nums (snd (?D ! j)) ! i = 1
            \<and> (\<forall>k < length ?D. k \<noteq> j \<longrightarrow> nums (snd (?D ! k)) ! i = 0)"
    using i by (cases col) (simp_all add: dummies_of_exclusive)
  have "\<forall>n \<in> set (columns ?rest). \<not> startswith n ?p"
    using assms(4) columns_filter_subset by blast
  then have "matched ?rest ?p = []" by (rule matched_none)
  moreover have "matched ?D ?p = ?D" using 2 by (rule matched_all)
  ultimately have 4: "matched (?rest @ ?D) ?p = ?D" by (simp add: matched_append)
  show ?thesis
  proof (intro exI [of _ "?rest @ ?D"] conjI)
    show "get_dummies t [c] = Inr (?rest @ ?D)" by (fact 1)
    show "?rest @ ?D = ?rest @ matched (?rest @ ?D) ?p" by (simp only: 4)
    show "\<exists>j < length (matched (?rest @ ?D) ?p).
            nums (snd (matched (?rest @ ?D) ?p ! j)) ! i = 1
          \<and> (\<forall>k < length (matched (?rest @ ?D) ?p).
                 k \<noteq> j \<longrightarrow> nums (snd (matched (?rest @ ?D) ?p ! k)) ! i = 0)"
      unfolding 4 by (fact 3)
  qed
qed

text \<open>
  The hypotheses hold for a frame with the one column \<^verbatim>\<open>cat\<close> and its last row.
\<close>

theorem get_dummies_exclusive_witness:
  "wf_table [(''cat'', StrCol [''B'', ''A'', ''B''])]
   \<and> (\<exists>enc. get_dummies [(''cat'', StrCol [''B'', ''A'', ''B''])] [''cat''] = Inr enc
        \<and> enc = [] @ matched enc (''cat'' @ ''_'')
        \<and> (\<exists>j < length (matched enc (''cat'' @ ''_'')).
               nums (snd (matched enc (''cat'' @ ''_'') ! j)) ! 2 = 1))"
proof -
  let ?t = "[(''cat'', StrCol [''B'', ''A'', ''B''])]"
  have 1: "wf_table ?t" by (simp add: wf_table_def columns_def)
  have 2: "map_of ?t ''cat'' = Some (StrCol [''B'', ''A'', ''B''])" by simp
  have 3: "2 < nrows ?t" by simp
  have 4: "\<forall>n \<in> set (columns ?t). \<not> startswith n (''cat'' @ ''_'')" by (simp add: columns_def)
  have 5: "filter (\<lambda>(n, x). n \<noteq> ''cat'') ?t = []" by simp
  from get_dummies_exclusive [OF 1 2 3 4] 1 show ?thesis unfolding 5 by blast
qed

text \<open>
  C6. Cardinality. For a frame with unique labels and columns of one length and a column
  \<open>c\<close> of it with \<open>k\<close> distinct values, encoding \<open>c\<close> keeps the other columns as
  they are, appends exactly \<open>k\<close> columns, each holding only 0 and 1 and one value per
  row, and removes exactly one column, the column \<open>c\<close>.
\<close>

theorem get_dummies_cardinality:
  assumes "wf_table t" and "map_of t c = Some col"
  shows "\<exists>D. get_dummies t [c] = Inr (filter (\<lambda>(n, x). n \<noteq> c) t @ D)
    \<and> length D = levels_count col
    \<and> (\<forall>(n, d) \<in> set D. \<exists>bs. d = NumCol bs \<and> length bs = nrows t \<and> set bs \<subseteq> {0, 1})
    \<and> length (filter (\<lambda>(n, x). n \<noteq> c) t) + 1 = length t
    \<and> c \<notin> set (columns (filter (\<lambda>(n, x). n \<noteq> c) t))"
proof -
  let ?D = "get_dummies_1d c col"
  let ?rest = "filter (\<lambda>(n, x). n \<noteq> c) t"
  have len: "col_len col = nrows t" using assms by (rule wf_col_len)
  have 1: "get_dummies t [c] = Inr (?rest @ ?D)" using assms(2) by (rule get_dummies_single)
  have 2: "length ?D = levels_count col"
    by (cases col) (simp_all add: length_dummies_of card_sint)
  have 3: "\<forall>(n, d) \<in> set ?D. \<exists>bs. d = NumCol bs \<and> length bs = nrows t \<and> set bs \<subseteq> {0, 1}"
    using len by (cases col) (auto dest: dummies_of_bool)
  have 4: "length ?rest + 1 = length t"
    using assms by (intro length_drop_one) (simp_all add: wf_table_def columns_def)
  have 5: "c \<notin> set (columns ?rest)" by (auto simp: columns_def)
  from 1 2 3 4 5 show ?thesis by blast
qed

text \<open>
  The hypotheses hold for a frame whose column \<^verbatim>\<open>cat\<close> has the two levels A and B.
\<close>

theorem get_dummies_cardinality_witness:
  "wf_table [(''y'', NumCol [4, 5, 6]), (''cat'', StrCol [''B'', ''A'', ''B''])]
   \<and> levels_count (StrCol [''B'', ''A'', ''B'']) = 2
   \<and> (\<exists>D. get_dummies [(''y'', NumCol [4, 5, 6]), (''cat'', StrCol [''B'', ''A'', ''B''])] [''cat'']
             = Inr ([(''y'', NumCol [4, 5, 6])] @ D)
        \<and> length D = 2
        \<and> (\<forall>(n, d) \<in> set D. \<exists>bs. d = NumCol bs \<and> length bs = 3 \<and> set bs \<subseteq> {0, 1}))"
proof -
  let ?t = "[(''y'', NumCol [4, 5, 6]), (''cat'', StrCol [''B'', ''A'', ''B''])]"
  have 1: "wf_table ?t" by (simp add: wf_table_def columns_def)
  have 2: "map_of ?t ''cat'' = Some (StrCol [''B'', ''A'', ''B''])" by simp
  have 3: "levels_count (StrCol [''B'', ''A'', ''B'']) = 2" by (simp add: card_insert_if)
  have 4: "filter (\<lambda>(n, x). n \<noteq> ''cat'') ?t = [(''y'', NumCol [4, 5, 6])]" by simp
  have 5: "nrows ?t = 3" by simp
  from get_dummies_cardinality [OF 1 2] 1 3 show ?thesis unfolding 3 4 5 by blast
qed

section \<open>Round trip\<close>











end
